theory Spec2Isabelle
  imports Main "HOL-Library.Sublist"
begin

section \<open>Values, dictionaries and errors\<close>

text \<open>
  The client exchanges JSON with the server. A Python \<open>dict\<close> with string keys is a map
  from strings to values; nested objects are kept as association lists inside \<open>json\<close>.
\<close>

datatype json =
    JNull
  | JBool bool
  | JInt int
  | JStr string
  | JList "json list"
  | JObj "(string \<times> json) list"

type_synonym dict = "string \<rightharpoonup> json"

text \<open>
  Every exception the modelled code can raise. \<open>LoginFailedException\<close> carries the
  response whose \<open>str()\<close> is the message; \<open>KeyError\<close> carries the missing key.
  \<open>JSONDecodeError\<close> is what \<open>response.json()\<close> raises on an undecodable body,
  \<open>RequestException\<close> what the transport raises when no response arrives,
  \<open>OSError\<close> what reading the key file may raise.
\<close>

datatype error =
    APIKeyError
  | LoginFailedException dict
  | NoSessionError string
  | InvalidSessionError string
  | InvalidRequest string
  | KeyError string
  | AttributeError
  | JSONDecodeError
  | RequestException
  | OSError

section \<open>The object store and the transport\<close>

text \<open>
  Dictionaries are mutable objects that callers and requests may share, so they live
  in a store: \<open>heap\<close> maps an address to the dictionary held there and \<open>next_addr\<close>
  is the first address never handed out. The HTTP transport (\<open>requests.get\<close>,
  \<open>requests.post\<close>) is outside the repository: \<open>pending\<close> is the sequence of
  outcomes the next transport calls will have, and \<open>calls\<close> records every call that
  was issued, oldest first.
\<close>

type_synonym addr = nat

datatype http_method = GET | POST

text \<open>
  One transport call \<open>self.method(self.url, data=payload, **self.arguments)\<close>.
  The payload is \<open>{'request-json': json.dumps(obj)}\<close>; \<open>request_json\<close> records
  \<open>obj\<close>, the object that is serialised into that single form field.
\<close>

record http_call =
  call_method :: http_method
  call_url :: string
  request_json :: dict
  call_arguments :: dict

text \<open>
  What \<open>response.json()\<close> yields: a mapping when the body is a JSON object, any other
  JSON value otherwise.
\<close>

datatype decoded = Mapping dict | NonMapping json

datatype http_result =
    Decoded decoded
  | Undecodable
  | ConnectionFailed

record world =
  heap :: "addr \<Rightarrow> dict"
  next_addr :: addr
  pending :: "http_result list"
  calls :: "http_call list"

text \<open>Creating a new dictionary object: \<open>{}\<close>, a dict display, or \<open>d.copy()\<close>.\<close>

definition alloc :: "dict \<Rightarrow> world \<Rightarrow> addr \<times> world" where
  "alloc d w =
     (next_addr w, w\<lparr>heap := (heap w)(next_addr w := d), next_addr := Suc (next_addr w)\<rparr>)"

definition copy :: "addr \<Rightarrow> world \<Rightarrow> addr \<times> world" where
  "copy a w = alloc (heap w a) w"

text \<open>The item assignment \<open>d[k] = v\<close> on the dictionary object at address \<open>a\<close>.\<close>

definition setitem :: "addr \<Rightarrow> string \<Rightarrow> json \<Rightarrow> world \<Rightarrow> world" where
  "setitem a k v w = w\<lparr>heap := (heap w)(a := (heap w a)(k \<mapsto> v))\<rparr>"

section \<open>request.py\<close>

text \<open>
  \<open>str.lower()\<close> on the ASCII letters; every other byte is kept (no non-ASCII
  character lowers to a letter of \<open>get\<close> or \<open>post\<close>).
\<close>

definition lower_char :: "char \<Rightarrow> char" where
  "lower_char c =
     (case map_of (zip ''ABCDEFGHIJKLMNOPQRSTUVWXYZ'' ''abcdefghijklmnopqrstuvwxyz'') c of
        None \<Rightarrow> c
      | Some l \<Rightarrow> l)"

definition lower :: "string \<Rightarrow> string" where
  "lower s = map lower_char s"

text \<open>\<open>Request._method_dict = {'post': requests.post, 'get': requests.get}\<close>\<close>

definition method_dict :: "string \<rightharpoonup> http_method" where
  "method_dict = [''post'' \<mapsto> POST, ''get'' \<mapsto> GET]"

text \<open>
  A \<open>Request\<close> object; \<open>method_fn\<close> is the attribute \<open>self.method\<close>, the
  transport function picked by the constructor.
\<close>

record request =
  url :: "string option"
  method_fn :: http_method
  data :: addr
  settings :: addr
  arguments :: dict
  response :: "decoded option"

text \<open>
  \<open>Request.__init__(self, url=None, method='get', data=None, settings=None, **kwargs)\<close>.
  \<open>data\<close> and \<open>settings\<close> are references to the caller's dictionaries (or \<open>None\<close>);
  \<open>url = None\<close> leaves the attribute unset; \<open>m\<close> is the value of the
  keyword \<open>method\<close> (\<open>''get''\<close> when the caller omits it). The method lookup
  comes last, so a \<open>KeyError\<close> is raised after the copies were made.
\<close>

definition Request_init ::
  "string option \<Rightarrow> string \<Rightarrow> addr option \<Rightarrow> addr option \<Rightarrow> dict \<Rightarrow> world
     \<Rightarrow> (error + request) \<times> world" where
  "Request_init u m d s kwargs w =
     (let (da, w1) = (case d of None \<Rightarrow> alloc Map.empty w | Some a \<Rightarrow> copy a w);
          (sa, w2) = (case s of None \<Rightarrow> alloc Map.empty w1 | Some a \<Rightarrow> copy a w1)
      in case method_dict (lower m) of
           None \<Rightarrow> (Inl (KeyError (lower m)), w2)
         | Some f \<Rightarrow>
             (Inr \<lparr>url = u, method_fn = f, data = da, settings = sa,
                   arguments = kwargs, response = None\<rparr>, w2))"

text \<open>
  Lines 60 to 73 of \<open>Request._make_request\<close>: the classification of a decoded
  response. \<open>response.get\<close> exists on a mapping only; \<open>response['errormessage']\<close>
  raises \<open>KeyError\<close> when the key is missing; \<open>err_msg.startswith\<close> exists on a
  string only. \<open>no_session_text\<close> is the Python literal \<open>'no "session" in JSON.'\<close>
  (\<open>CHR 0x22\<close> is the double quote).
\<close>

abbreviation no_session_text :: string where
  "no_session_text \<equiv> ''no '' @ [CHR 0x22] @ ''session'' @ [CHR 0x22] @ '' in JSON.''"

definition check_response :: "decoded \<Rightarrow> error + dict" where
  "check_response b =
     (case b of
        NonMapping v \<Rightarrow> Inl AttributeError
      | Mapping R \<Rightarrow>
          if R ''status'' = Some (JStr ''error'') then
            (case R ''errormessage'' of
               None \<Rightarrow> Inl (KeyError ''errormessage'')
             | Some (JStr err_msg) \<Rightarrow>
                 if err_msg = no_session_text
                 then Inl (NoSessionError err_msg)
                 else if prefix ''no session with key'' err_msg
                 then Inl (InvalidSessionError err_msg)
                 else Inl (InvalidRequest err_msg)
             | Some _ \<Rightarrow> Inl AttributeError)
          else Inr R)"

text \<open>
  \<open>Request._make_request\<close>. The merged object \<open>{**self.data, **self.settings}\<close> is
  \<open>data ++ settings\<close>. An unset \<open>url\<close> raises \<open>AttributeError\<close> before any call is
  made. Otherwise one call is issued and consumes the next transport outcome;
  \<open>self.response\<close> is assigned before the response is classified.
\<close>

definition Request_make_request :: "request \<Rightarrow> world \<Rightarrow> (error + dict) \<times> request \<times> world" where
  "Request_make_request r w =
     (let payload = heap w (data r) ++ heap w (settings r) in
      case url r of
        None \<Rightarrow> (Inl AttributeError, r, w)
      | Some u \<Rightarrow>
          (let w' = w\<lparr>calls := calls w @
                          [\<lparr>call_method = method_fn r, call_url = u, request_json = payload,
                            call_arguments = arguments r\<rparr>],
                       pending := tl (pending w)\<rparr>
           in case pending w of
                [] \<Rightarrow> (Inl RequestException, r, w')
              | ConnectionFailed # rest \<Rightarrow> (Inl RequestException, r, w')
              | Undecodable # rest \<Rightarrow> (Inl JSONDecodeError, r, w')
              | Decoded b # rest \<Rightarrow> (check_response b, r\<lparr>response := Some b\<rparr>, w')))"

text \<open>\<open>Request.make\<close> on a plain \<open>Request\<close> or \<open>PostRequest\<close>.\<close>

definition Request_make :: "request \<Rightarrow> world \<Rightarrow> (error + dict) \<times> request \<times> world" where
  "Request_make r w = Request_make_request r w"

text \<open>
  \<open>PostRequest.__init__(self, *args, method='post', **kwargs)\<close>: \<open>None\<close> for the
  method stands for the omitted keyword.
\<close>

definition PostRequest_init ::
  "string option \<Rightarrow> string option \<Rightarrow> addr option \<Rightarrow> addr option \<Rightarrow> dict \<Rightarrow> world
     \<Rightarrow> (error + request) \<times> world" where
  "PostRequest_init u m d s kwargs w =
     Request_init u (case m of None \<Rightarrow> ''post'' | Some x \<Rightarrow> x) d s kwargs w"

section \<open>client.py\<close>

text \<open>
  A \<open>Session\<close> object. \<open>s_url\<close> is the class attribute \<open>url = login_url\<close>;
  \<open>api_key\<close> is \<open>None\<close> when the attribute holds Python's \<open>None\<close>; \<open>key\<close> is
  \<open>None\<close> while the attribute \<open>key\<close> has never been assigned.
\<close>

record session =
  s_url :: string
  api_key :: "string option"
  key :: "json option"
  logged_in :: bool

text \<open>\<open>os.environ.get(name)\<close>: the value, or \<open>None\<close> when the variable is unset.\<close>

definition environ_get :: "(string \<rightharpoonup> string) \<Rightarrow> string \<Rightarrow> error + string option" where
  "environ_get environ name = Inr (environ name)"

text \<open>
  \<open>Session.__init__(self, api_key=None, key_location=None)\<close>. \<open>login_url\<close> and
  \<open>read_api_key\<close> come from \<open>astrometry_net_client.config\<close> and are parameters;
  \<open>environ\<close> is the process environment.
\<close>

definition Session_init ::
  "string \<Rightarrow> (string \<Rightarrow> error + string) \<Rightarrow> (string \<rightharpoonup> string)
     \<Rightarrow> string option \<Rightarrow> string option \<Rightarrow> error + session" where
  "Session_init login_url read_api_key environ k key_location =
     (case k of
        Some x \<Rightarrow> Inr \<lparr>s_url = login_url, api_key = Some x, key = None, logged_in = False\<rparr>
      | None \<Rightarrow>
          (case key_location of
             Some loc \<Rightarrow>
               (case read_api_key loc of
                  Inl e \<Rightarrow> Inl e
                | Inr x \<Rightarrow>
                    Inr \<lparr>s_url = login_url, api_key = Some x, key = None, logged_in = False\<rparr>)
           | None \<Rightarrow>
               (case environ_get environ ''ASTROMETRY_API_KEY'' of
                  Inl (KeyError n) \<Rightarrow> Inl APIKeyError
                | Inl e \<Rightarrow> Inl e
                | Inr x \<Rightarrow>
                    Inr \<lparr>s_url = login_url, api_key = x, key = None, logged_in = False\<rparr>)))"

text \<open>The dictionary display \<open>{'apikey': self.api_key}\<close>.\<close>

definition apikey_data :: "session \<Rightarrow> dict" where
  "apikey_data s =
     [''apikey'' \<mapsto> (case api_key s of None \<Rightarrow> JNull | Some x \<Rightarrow> JStr x)]"

text \<open>
  \<open>Session.login(self, force=False)\<close>. An exception of \<open>r.make()\<close> passes
  through before the status is looked at.
\<close>

definition login :: "bool \<Rightarrow> session \<Rightarrow> world \<Rightarrow> (error + unit) \<times> session \<times> world" where
  "login force s w =
     (if \<not> force \<and> logged_in s then (Inr (), s, w)
      else
        (let (a, w1) = alloc (apikey_data s) w in
         case PostRequest_init (Some (s_url s)) None (Some a) None Map.empty w1 of
           (Inl e, w2) \<Rightarrow> (Inl e, s, w2)
         | (Inr r, w2) \<Rightarrow>
             (case Request_make r w2 of
                (Inl e, r', w3) \<Rightarrow> (Inl e, s, w3)
              | (Inr resp, r', w3) \<Rightarrow>
                  if resp ''status'' = Some (JStr ''success'') then
                    (case resp ''session'' of
                       None \<Rightarrow> (Inl (KeyError ''session''), s, w3)
                     | Some x \<Rightarrow> (Inr (), s\<lparr>key := Some x, logged_in := True\<rparr>, w3))
                  else (Inl (LoginFailedException resp), s, w3))))"

section \<open>AuthorizedRequest\<close>

text \<open>
  \<open>AuthorizedRequest.__init__(self, session, *args, **kwargs)\<close> builds the request
  as \<open>Request.__init__\<close> does and keeps a reference to the Session. The Session is a
  shared object: its state is passed to and returned from every operation that uses it.
\<close>

definition AuthorizedRequest_init ::
  "string option \<Rightarrow> string \<Rightarrow> addr option \<Rightarrow> addr option \<Rightarrow> dict \<Rightarrow> world
     \<Rightarrow> (error + request) \<times> world" where
  "AuthorizedRequest_init u m d s kwargs w = Request_init u m d s kwargs w"

text \<open>
  \<open>AuthorizedRequest._make_request\<close>. Reading \<open>self.session.key\<close> raises
  \<open>AttributeError\<close> while no key was ever stored. Only \<open>InvalidSessionError\<close> is
  caught; the statement after the handler is the second, unguarded send.
\<close>

definition AuthorizedRequest_make_request ::
  "request \<Rightarrow> session \<Rightarrow> world \<Rightarrow> (error + dict) \<times> request \<times> session \<times> world" where
  "AuthorizedRequest_make_request r s w =
     (case login False s w of
        (Inl e, s1, w1) \<Rightarrow> (Inl e, r, s1, w1)
      | (Inr u, s1, w1) \<Rightarrow>
          (case key s1 of
             None \<Rightarrow> (Inl AttributeError, r, s1, w1)
           | Some k \<Rightarrow>
               (case Request_make_request r (setitem (data r) ''session'' k w1) of
                  (Inr resp, r2, w2) \<Rightarrow> (Inr resp, r2, s1, w2)
                | (Inl (InvalidSessionError msg), r2, w2) \<Rightarrow>
                    (case login True s1 w2 of
                       (Inl e, s3, w3) \<Rightarrow> (Inl e, r2, s3, w3)
                     | (Inr u', s3, w3) \<Rightarrow>
                         (case key s3 of
                            None \<Rightarrow> (Inl AttributeError, r2, s3, w3)
                          | Some k' \<Rightarrow>
                              (case Request_make_request r2
                                      (setitem (data r2) ''session'' k' w3) of
                                 (res, r4, w4) \<Rightarrow> (res, r4, s3, w4))))
                | (Inl e, r2, w2) \<Rightarrow> (Inl e, r2, s1, w2))))"

text \<open>\<open>make\<close> on an \<open>AuthorizedRequest\<close> dispatches to the overriding method.\<close>

definition AuthorizedRequest_make ::
  "request \<Rightarrow> session \<Rightarrow> world \<Rightarrow> (error + dict) \<times> request \<times> session \<times> world" where
  "AuthorizedRequest_make r s w = AuthorizedRequest_make_request r s w"

section \<open>Auxiliary notions used in the statements\<close>

text \<open>
  The one transport call \<open>login\<close> issues for a Session: a POST to the login url whose
  object is \<open>{'apikey': self.api_key}\<close> merged with the empty settings, without
  extra arguments.
\<close>

definition login_call :: "session \<Rightarrow> http_call" where
  "login_call s =
     \<lparr>call_method = POST, call_url = s_url s, request_json = apikey_data s,
      call_arguments = Map.empty\<rparr>"

text \<open>The call a request issues from a store in which its dictionaries hold \<open>D\<close> and \<open>S\<close>.\<close>

definition request_call :: "request \<Rightarrow> string \<Rightarrow> dict \<Rightarrow> dict \<Rightarrow> http_call" where
  "request_call r u D S =
     \<lparr>call_method = method_fn r, call_url = u, request_json = D ++ S,
      call_arguments = arguments r\<rparr>"

text \<open>A store with no object, no scripted transport outcome but \<open>rs\<close>, and no call made.\<close>

definition fresh_world :: "http_result list \<Rightarrow> world" where
  "fresh_world rs = \<lparr>heap = (\<lambda>a. Map.empty), next_addr = 0, pending = rs, calls = []\<rparr>"

text \<open>
  A request as the constructor builds it: its two dictionaries are distinct objects of
  the store (see \<open>Request_init_ok\<close>).
\<close>

definition request_ok :: "request \<Rightarrow> world \<Rightarrow> bool" where
  "request_ok r w =
     (data r < next_addr w \<and> settings r < next_addr w \<and> data r \<noteq> settings r)"

text \<open>
  Calling \<open>login\<close> twice in a row on one Session; the second call is made whether the
  first one returned or raised.
\<close>

definition login_twice :: "bool \<Rightarrow> session \<Rightarrow> world \<Rightarrow> (error + unit) \<times> session \<times> world" where
  "login_twice force s w = (case login force s w of (res, s1, w1) \<Rightarrow> login force s1 w1)"

text \<open>Concrete objects on which the statements below are exercised.\<close>

definition example_request :: request where
  "example_request =
     \<lparr>url = Some ''http://nova.astrometry.net/api/jobs'', method_fn = GET, data = 0,
      settings = 1, arguments = Map.empty, response = None\<rparr>"

definition example_world :: "dict \<Rightarrow> dict \<Rightarrow> http_result list \<Rightarrow> world" where
  "example_world D S rs =
     \<lparr>heap = (\<lambda>a. Map.empty)(0 := D, 1 := S), next_addr = 2, pending = rs, calls = []\<rparr>"

definition example_session :: session where
  "example_session =
     \<lparr>s_url = ''http://nova.astrometry.net/api/login'', api_key = Some ''secret'',
      key = None, logged_in = False\<rparr>"

definition error_reply :: "string \<Rightarrow> http_result" where
  "error_reply msg =
     Decoded (Mapping [''status'' \<mapsto> JStr ''error'', ''errormessage'' \<mapsto> JStr msg])"

definition success_reply :: "string \<Rightarrow> http_result" where
  "success_reply k =
     Decoded (Mapping [''status'' \<mapsto> JStr ''success'', ''session'' \<mapsto> JStr k])"

section \<open>Basic facts\<close>

lemma lower_post: "lower ''post'' = ''post''"
  by (simp add: lower_def lower_char_def)

lemma method_dict_post: "method_dict ''post'' = Some POST"
  by (simp add: method_dict_def)

lemma method_dict_get: "method_dict ''get'' = Some GET"
  by (simp add: method_dict_def)

lemma method_dict_None: "method_dict x = None \<longleftrightarrow> x \<noteq> ''get'' \<and> x \<noteq> ''post''"
  by (auto simp add: method_dict_def)

lemma Request_make_request_decoded:
  "url r = Some u \<Longrightarrow> pending w = Decoded b # rest \<Longrightarrow>
   Request_make_request r w =
     (check_response b, r\<lparr>response := Some b\<rparr>,
      w\<lparr>calls := calls w @ [request_call r u (heap w (data r)) (heap w (settings r))],
        pending := rest\<rparr>)"
  by (simp add: Request_make_request_def request_call_def)

lemma Request_make_request_frame:
  "Request_make_request r w = (res, r', w') \<Longrightarrow>
   heap w' = heap w \<and> next_addr w' = next_addr w \<and> data r' = data r \<and>
   settings r' = settings r \<and> url r' = url r \<and> method_fn r' = method_fn r \<and>
   arguments r' = arguments r"
  by (auto simp add: Request_make_request_def Let_def
      split: option.splits list.splits http_result.splits)

lemma setitem_simps [simp]:
  "calls (setitem a k v w) = calls w"
  "pending (setitem a k v w) = pending w"
  "next_addr (setitem a k v w) = next_addr w"
  "heap (setitem a k v w) = (heap w)(a := (heap w a)(k \<mapsto> v))"
  by (simp_all add: setitem_def)

lemma request_call_cong:
  "method_fn r' = method_fn r \<Longrightarrow> arguments r' = arguments r \<Longrightarrow>
   request_call r' u D S = request_call r u D S"
  by (simp add: request_call_def)

lemma Request_make_request_calls:
  assumes "Request_make_request r w = (res, r', w')"
  shows "(url r = None \<and> res = Inl AttributeError \<and> calls w' = calls w \<and> pending w' = pending w)
       \<or> (\<exists>u. url r = Some u \<and>
              calls w' = calls w @ [request_call r u (heap w (data r)) (heap w (settings r))] \<and>
              pending w' = tl (pending w))"
  using assms
  by (auto simp add: Request_make_request_def request_call_def Let_def
      split: option.splits list.splits http_result.splits)

lemma Request_init_ok:
  assumes "Request_init u m d s kwargs w0 = (Inr r, w)"
  shows "request_ok r w \<and> url r = u \<and> arguments r = kwargs \<and> response r = None \<and>
         data r = next_addr w0 \<and> settings r = Suc (next_addr w0) \<and>
         next_addr w = Suc (Suc (next_addr w0)) \<and>
         (\<forall>a<next_addr w0. heap w a = heap w0 a) \<and>
         heap w (data r) = (case d of None \<Rightarrow> Map.empty | Some a \<Rightarrow> heap w0 a) \<and>
         (\<forall>a. s = Some a \<and> a < next_addr w0 \<longrightarrow> heap w (settings r) = heap w0 a) \<and>
         (s = None \<longrightarrow> heap w (settings r) = Map.empty) \<and>
         calls w = calls w0 \<and> pending w = pending w0"
  using assms
  by (auto simp add: Request_init_def request_ok_def alloc_def copy_def Let_def
      split: option.splits prod.splits)

subsection \<open>Facts about login\<close>

lemma login_noop: "logged_in s \<Longrightarrow> login False s w = (Inr (), s, w)"
  by (simp add: login_def)

lemma login_sends:
  assumes "force \<or> \<not> logged_in s"
  shows "login force s w =
     (let n = next_addr w;
          w' = w\<lparr>heap := (heap w)(n := apikey_data s, Suc n := apikey_data s, Suc (Suc n) := Map.empty),
                 next_addr := Suc (Suc (Suc n)),
                 calls := calls w @ [login_call s],
                 pending := tl (pending w)\<rparr>
      in case pending w of
           [] \<Rightarrow> (Inl RequestException, s, w')
         | ConnectionFailed # rest \<Rightarrow> (Inl RequestException, s, w')
         | Undecodable # rest \<Rightarrow> (Inl JSONDecodeError, s, w')
         | Decoded b # rest \<Rightarrow>
             (case check_response b of
                Inl e \<Rightarrow> (Inl e, s, w')
              | Inr resp \<Rightarrow>
                  if resp ''status'' = Some (JStr ''success'') then
                    (case resp ''session'' of
                       None \<Rightarrow> (Inl (KeyError ''session''), s, w')
                     | Some x \<Rightarrow> (Inr (), s\<lparr>key := Some x, logged_in := True\<rparr>, w'))
                  else (Inl (LoginFailedException resp), s, w')))"
  using assms
  by (auto simp add: login_def PostRequest_init_def Request_init_def alloc_def copy_def
      lower_post method_dict_post Request_make_def Request_make_request_def login_call_def Let_def
      split: list.splits http_result.splits sum.splits option.splits)

lemma login_effect:
  assumes "login force s w = (res, s', w')"
  shows "(\<forall>a<next_addr w. heap w' a = heap w a) \<and> next_addr w \<le> next_addr w' \<and>
         login_call s' = login_call s \<and>
         (if force \<or> \<not> logged_in s then calls w' = calls w @ [login_call s] \<and> pending w' = tl (pending w)
          else calls w' = calls w \<and> pending w' = pending w \<and> s' = s)"
proof (cases "force \<or> \<not> logged_in s")
  case True
  show ?thesis
    using assms True unfolding login_sends [OF True]
    by (auto simp add: Let_def login_call_def apikey_data_def
        split: list.splits http_result.splits sum.splits option.splits if_splits)
next
  case False
  then show ?thesis using assms by (auto simp add: login_def)
qed

lemma login_failure_keeps_session:
  "login force s w = (Inl e, s', w') \<Longrightarrow> s' = s"
  by (auto simp add: login_def Let_def split: prod.splits sum.splits if_splits option.splits)

lemma login_success_has_key:
  "login force s w = (Inr u, s', w') \<Longrightarrow> key s \<noteq> None \<or> \<not> logged_in s \<or> force \<Longrightarrow> key s' \<noteq> None"
  by (auto simp add: login_def Let_def split: prod.splits sum.splits if_splits option.splits)

subsection \<open>The paths through an authorized send\<close>

lemma AuthorizedRequest_make_request_cases [consumes 1, case_names login_failed no_key
    single relogin_failed relogin_no_key retried]:
  assumes "AuthorizedRequest_make_request r s w = (res, r', s', w')"
  obtains
    e where "login False s w = (Inl e, s', w')" and "res = Inl e" and "r' = r"
  | u where "login False s w = (Inr u, s', w')" and "key s' = None"
      and "res = Inl AttributeError" and "r' = r"
  | u w1 k where "login False s w = (Inr u, s', w1)" and "key s' = Some k"
      and "Request_make_request r (setitem (data r) ''session'' k w1) = (res, r', w')"
      and "\<forall>msg. res \<noteq> Inl (InvalidSessionError msg)"
  | u s1 w1 k msg w2 e where "login False s w = (Inr u, s1, w1)" and "key s1 = Some k"
      and "Request_make_request r (setitem (data r) ''session'' k w1) =
             (Inl (InvalidSessionError msg), r', w2)"
      and "login True s1 w2 = (Inl e, s', w')" and "res = Inl e"
  | u s1 w1 k msg w2 u' where "login False s w = (Inr u, s1, w1)" and "key s1 = Some k"
      and "Request_make_request r (setitem (data r) ''session'' k w1) =
             (Inl (InvalidSessionError msg), r', w2)"
      and "login True s1 w2 = (Inr u', s', w')" and "key s' = None"
      and "res = Inl AttributeError"
  | u s1 w1 k msg r2 w2 u' w3 k' where "login False s w = (Inr u, s1, w1)"
      and "key s1 = Some k"
      and "Request_make_request r (setitem (data r) ''session'' k w1) =
             (Inl (InvalidSessionError msg), r2, w2)"
      and "login True s1 w2 = (Inr u', s', w3)" and "key s' = Some k'"
      and "Request_make_request r2 (setitem (data r2) ''session'' k' w3) = (res, r', w')"
  using assms unfolding AuthorizedRequest_make_request_def
  by (auto split: prod.splits sum.splits option.splits error.splits)

lemma AuthorizedRequest_effect:
  assumes run: "AuthorizedRequest_make_request r s w = (res, r', s', w')"
    and ok: "request_ok r w"
  shows "request_ok r' w' \<and> data r' = data r \<and> settings r' = settings r \<and>
         next_addr w \<le> next_addr w' \<and>
         (\<forall>a<next_addr w. a \<noteq> data r \<longrightarrow> heap w' a = heap w a) \<and>
         login_call s' = login_call s"
  using run
proof (cases rule: AuthorizedRequest_make_request_cases)
  case (login_failed e)
  from login_effect [OF login_failed(1)] ok login_failed show ?thesis
    by (auto simp add: request_ok_def)
next
  case (no_key u)
  from login_effect [OF no_key(1)] ok no_key show ?thesis
    by (auto simp add: request_ok_def)
next
  case (single u w1 k)
  from login_effect [OF single(1)] Request_make_request_frame [OF single(3)] ok
  show ?thesis
    by (auto simp add: request_ok_def)
next
  case (relogin_failed u s1 w1 k msg w2 e)
  from login_effect [OF relogin_failed(1)] Request_make_request_frame [OF relogin_failed(3)]
    login_effect [OF relogin_failed(4)] ok
  show ?thesis
    by (auto simp add: request_ok_def)
next
  case (relogin_no_key u s1 w1 k msg w2 u')
  from login_effect [OF relogin_no_key(1)] Request_make_request_frame [OF relogin_no_key(3)]
    login_effect [OF relogin_no_key(4)] ok
  show ?thesis
    by (auto simp add: request_ok_def)
next
  case (retried u s1 w1 k msg r2 w2 u' w3 k')
  from login_effect [OF retried(1)] Request_make_request_frame [OF retried(3)]
    login_effect [OF retried(4)] Request_make_request_frame [OF retried(6)] ok
  show ?thesis
    by (auto simp add: request_ok_def)
qed

subsection \<open>The retry path\<close>

lemma check_response_invalid_session:
  assumes "R ''status'' = Some (JStr ''error'')" and "R ''errormessage'' = Some (JStr msg)"
    and "prefix ''no session with key'' msg"
  shows "check_response (Mapping R) = Inl (InvalidSessionError msg)"
proof -
  have "\<not> prefix ''no session with key'' no_session_text"
    by simp
  with assms(3) have "msg \<noteq> no_session_text"
    by auto
  with assms show ?thesis
    by (simp add: check_response_def)
qed

lemma check_response_success:
  "L ''status'' = Some (JStr ''success'') \<Longrightarrow> check_response (Mapping L) = Inr L"
  by (simp add: check_response_def)

lemma login_forced_success:
  assumes "pending w = Decoded (Mapping L) # rest"
    and "L ''status'' = Some (JStr ''success'')" and "L ''session'' = Some k"
  shows "login True s w =
     (Inr (), s\<lparr>key := Some k, logged_in := True\<rparr>,
      w\<lparr>heap := (heap w)(next_addr w := apikey_data s, Suc (next_addr w) := apikey_data s,
                          Suc (Suc (next_addr w)) := Map.empty),
        next_addr := Suc (Suc (Suc (next_addr w))),
        calls := calls w @ [login_call s],
        pending := rest\<rparr>)"
  using assms by (simp add: login_sends Let_def check_response_success)

lemma AuthorizedRequest_retry:
  assumes l0: "login False s w = (Inr u0, s1, w1)" and k: "key s1 = Some k"
    and u: "url r = Some u" and ok: "request_ok r w"
    and p: "pending w1 = Decoded b1 # Decoded (Mapping L) # Decoded b2 # rest"
    and c1: "check_response b1 = Inl (InvalidSessionError msg)"
    and L: "L ''status'' = Some (JStr ''success'')" "L ''session'' = Some k'"
  shows "\<exists>W. AuthorizedRequest_make_request r s w =
           (check_response b2, r\<lparr>response := Some b2\<rparr>,
            s1\<lparr>key := Some k', logged_in := True\<rparr>, W) \<and>
         calls W = calls w1 @
           [request_call r u ((heap w (data r))(''session'' \<mapsto> k)) (heap w (settings r)),
            login_call s,
            request_call r u ((heap w (data r))(''session'' \<mapsto> k')) (heap w (settings r))] \<and>
         pending W = rest \<and>
         heap W (data r) = (heap w (data r))(''session'' \<mapsto> k') \<and>
         heap W (settings r) = heap w (settings r)"
proof -
  from login_effect [OF l0] ok
  have h1: "heap w1 (data r) = heap w (data r)" "heap w1 (settings r) = heap w (settings r)"
    and n1: "data r < next_addr w1" "settings r < next_addr w1"
    and lc: "login_call s1 = login_call s"
    by (auto simp add: request_ok_def)
  from ok have ne: "data r \<noteq> settings r" "settings r \<noteq> data r"
    by (auto simp add: request_ok_def)
  let ?w1 = "setitem (data r) ''session'' k w1"
  have p1: "pending ?w1 = Decoded b1 # Decoded (Mapping L) # Decoded b2 # rest"
    using p by simp
  let ?r2 = "r\<lparr>response := Some b1\<rparr>"
  let ?w2 = "?w1\<lparr>calls := calls ?w1 @
                 [request_call r u (heap ?w1 (data r)) (heap ?w1 (settings r))],
               pending := Decoded (Mapping L) # Decoded b2 # rest\<rparr>"
  have first: "Request_make_request r ?w1 = (Inl (InvalidSessionError msg), ?r2, ?w2)"
    using Request_make_request_decoded [OF u p1] c1
    by simp
  have p2: "pending ?w2 = Decoded (Mapping L) # (Decoded b2 # rest)"
    by simp
  let ?s3 = "s1\<lparr>key := Some k', logged_in := True\<rparr>"
  note relogin = login_forced_success [OF p2 L, of s1]
  obtain w3 where w3: "login True s1 ?w2 = (Inr (), ?s3, w3)"
    and c3: "calls w3 = calls ?w2 @ [login_call s1]"
    and p3: "pending w3 = Decoded b2 # rest"
    and h3: "heap w3 (data r) = heap ?w2 (data r)" "heap w3 (settings r) = heap ?w2 (settings r)"
    using relogin n1 by auto
  let ?w3 = "setitem (data ?r2) ''session'' k' w3"
  have u2: "url ?r2 = Some u" using u by simp
  have p3': "pending ?w3 = Decoded b2 # rest" using p3 by simp
  note second = Request_make_request_decoded [OF u2 p3']
  show ?thesis
    unfolding AuthorizedRequest_make_request_def
    using l0 k first w3 second c3 h3 h1 ne lc
    by (simp add: request_call_def)
qed

subsection \<open>The calls of an authorized send\<close>

lemma login_calls:
  assumes "login force s w = (res, s', w')"
  shows "\<exists>pre. calls w' = calls w @ pre \<and> (pre = [] \<or> pre = [login_call s])"
  using login_effect [OF assms] by (cases "force \<or> \<not> logged_in s") auto

lemma Request_send_with_key:
  assumes run: "Request_make_request r (setitem (data r) ''session'' k w1) = (res, r2, w2)"
    and ne: "data r \<noteq> settings r"
  shows "((\<exists>e. res = Inl e \<and> (\<forall>msg. e \<noteq> InvalidSessionError msg)) \<and> calls w2 = calls w1 \<or>
          (\<exists>u. url r = Some u \<and>
             calls w2 = calls w1 @
               [request_call r u ((heap w1 (data r))(''session'' \<mapsto> k)) (heap w1 (settings r))])) \<and>
         heap w2 (data r) = (heap w1 (data r))(''session'' \<mapsto> k) \<and>
         (\<forall>a. a \<noteq> data r \<longrightarrow> heap w2 a = heap w1 a) \<and>
         next_addr w2 = next_addr w1 \<and> data r2 = data r \<and> settings r2 = settings r \<and>
         url r2 = url r \<and> request_call r2 = request_call r"
proof -
  note fr = Request_make_request_frame [OF run]
  from fr have "request_call r2 = request_call r"
    by (auto simp add: request_call_def fun_eq_iff)
  moreover from Request_make_request_calls [OF run] ne
  have "(\<exists>e. res = Inl e \<and> (\<forall>msg. e \<noteq> InvalidSessionError msg)) \<and> calls w2 = calls w1 \<or>
          (\<exists>u. url r = Some u \<and>
             calls w2 = calls w1 @
               [request_call r u ((heap w1 (data r))(''session'' \<mapsto> k)) (heap w1 (settings r))])"
    by auto
  ultimately show ?thesis using fr by simp
qed


lemma AuthorizedRequest_calls:
  assumes run: "AuthorizedRequest_make_request r s w = (res, r', s', w')"
    and ok: "request_ok r w"
  shows "\<exists>pre post u k k'.
           calls w' = calls w @ pre @ post \<and> (pre = [] \<or> pre = [login_call s]) \<and>
           prefix post
             [request_call r u ((heap w (data r))(''session'' \<mapsto> k)) (heap w (settings r)),
              login_call s,
              request_call r u ((heap w (data r))(''session'' \<mapsto> k')) (heap w (settings r))]"
proof -
  from ok have ne: "data r \<noteq> settings r" and lt: "data r < next_addr w" "settings r < next_addr w"
    by (auto simp add: request_ok_def)
  let ?A = "\<lambda>u k. request_call r u ((heap w (data r))(''session'' \<mapsto> k)) (heap w (settings r))"
  let ?shape = "\<lambda>pre post u k k'. calls w' = calls w @ pre @ post \<and>
     (pre = [] \<or> pre = [login_call s]) \<and> prefix post [?A u k, login_call s, ?A u k']"
  have nil: "?thesis" if "calls w' = calls w @ pre" "pre = [] \<or> pre = [login_call s]" for pre
  proof -
    from that have "?shape pre [] undefined undefined undefined" by simp
    then show ?thesis by blast
  qed
  from run show ?thesis
  proof (cases rule: AuthorizedRequest_make_request_cases)
    case (login_failed e)
    from login_calls [OF login_failed(1)] nil show ?thesis by blast
  next
    case (no_key u)
    from login_calls [OF no_key(1)] nil show ?thesis by blast
  next
    case (single u0 w1 k)
    from login_calls [OF single(1)] obtain pre where
      pre: "calls w1 = calls w @ pre" "pre = [] \<or> pre = [login_call s]" by blast
    from login_effect [OF single(1)] lt
    have h1: "heap w1 (data r) = heap w (data r)" "heap w1 (settings r) = heap w (settings r)"
      by auto
    from Request_send_with_key [OF single(3) ne]
    consider "calls w' = calls w1" | u where "calls w' = calls w1 @ [?A u k]"
      unfolding h1 by blast
    then show ?thesis
    proof cases
      case 1
      with pre nil show ?thesis by simp
    next
      case (2 u)
      with pre have "?shape pre [?A u k] u k undefined" by simp
      then show ?thesis by blast
    qed
  next
    case (relogin_failed u0 s1 w1 k msg w2 e)
    from login_calls [OF relogin_failed(1)] obtain pre where
      pre: "calls w1 = calls w @ pre" "pre = [] \<or> pre = [login_call s]" by blast
    from login_effect [OF relogin_failed(1)] lt
    have h1: "heap w1 (data r) = heap w (data r)" "heap w1 (settings r) = heap w (settings r)"
      and lc: "login_call s1 = login_call s"
      by auto
    from Request_send_with_key [OF relogin_failed(3) ne]
    obtain u where c2: "calls w2 = calls w1 @ [?A u k]"
      unfolding h1 by blast
    from login_effect [OF relogin_failed(4)] lc
    have "calls w' = calls w2 @ [login_call s]" by simp
    with pre c2 have "?shape pre [?A u k, login_call s] u k undefined" by simp
    then show ?thesis by blast
  next
    case (relogin_no_key u0 s1 w1 k msg w2 u')
    from login_calls [OF relogin_no_key(1)] obtain pre where
      pre: "calls w1 = calls w @ pre" "pre = [] \<or> pre = [login_call s]" by blast
    from login_effect [OF relogin_no_key(1)] lt
    have h1: "heap w1 (data r) = heap w (data r)" "heap w1 (settings r) = heap w (settings r)"
      and lc: "login_call s1 = login_call s"
      by auto
    from Request_send_with_key [OF relogin_no_key(3) ne]
    obtain u where c2: "calls w2 = calls w1 @ [?A u k]"
      unfolding h1 by blast
    from login_effect [OF relogin_no_key(4)] lc
    have "calls w' = calls w2 @ [login_call s]" by simp
    with pre c2 have "?shape pre [?A u k, login_call s] u k undefined" by simp
    then show ?thesis by blast
  next
    case (retried u0 s1 w1 k msg r2 w2 u' w3 k')
    from login_calls [OF retried(1)] obtain pre where
      pre: "calls w1 = calls w @ pre" "pre = [] \<or> pre = [login_call s]" by blast
    from login_effect [OF retried(1)] lt
    have h1: "heap w1 (data r) = heap w (data r)" "heap w1 (settings r) = heap w (settings r)"
      and lc: "login_call s1 = login_call s"
      and lt1: "data r < next_addr w1" "settings r < next_addr w1"
      by auto
    note first = Request_send_with_key [OF retried(3) ne]
    from first obtain u where u: "url r = Some u" and c2: "calls w2 = calls w1 @ [?A u k]"
      unfolding h1 by blast
    from first h1 ne lt1
    have h2: "heap w2 (data r) = (heap w (data r))(''session'' \<mapsto> k)"
      "heap w2 (settings r) = heap w (settings r)"
      and lt2: "data r < next_addr w2" "settings r < next_addr w2"
      and r2: "data r2 = data r" "settings r2 = settings r" "url r2 = url r"
        "request_call r2 = request_call r"
      by auto
    from login_effect [OF retried(4)] lc lt2
    have c3: "calls w3 = calls w2 @ [login_call s]"
      and h3: "heap w3 (data r) = heap w2 (data r)" "heap w3 (settings r) = heap w2 (settings r)"
      by auto
    from r2 ne have ne2: "data r2 \<noteq> settings r2" by simp
    from Request_send_with_key [OF retried(6) ne2] u
    have "calls w' = calls w3 \<or> calls w' = calls w3 @ [?A u k']"
      unfolding r2 h3 h2 by auto
    then show ?thesis
    proof
      assume "calls w' = calls w3"
      with pre c2 c3 have "?shape pre [?A u k, login_call s] u k undefined" by simp
      then show ?thesis by blast
    next
      assume "calls w' = calls w3 @ [?A u k']"
      with pre c2 c3 have "?shape pre [?A u k, login_call s, ?A u k'] u k k'" by simp
      then show ?thesis by blast
    qed
  qed
qed

section \<open>Session construction\<close>

text \<open>
  C1. The claim: a Session built with no key argument, no key file and no environment
  variable raises \<open>APIKeyError\<close>. The code reads the variable with
  \<open>os.environ.get\<close>, which returns \<open>None\<close> for an unset variable and never raises
  \<open>KeyError\<close>, so the handler that raises \<open>APIKeyError\<close> is never entered:
  construction completes, with \<open>api_key\<close> holding \<open>None\<close>.
\<close>

theorem Session_init_without_key_completes:
  "Session_init login_url read_api_key Map.empty None None =
     Inr \<lparr>s_url = login_url, api_key = None, key = None, logged_in = False\<rparr>"
  by (simp add: Session_init_def environ_get_def)

section \<open>Request construction\<close>

text \<open>
  C8. The method selector is compared after lowering: construction completes exactly
  when the lowered method is \<open>get\<close> or \<open>post\<close> (and picks the matching transport
  function); for every other method the constructor itself fails, with the
  \<open>KeyError\<close> of the method table's lookup, so no request object exists that
  could fail later at send time.
\<close>

theorem Request_init_method_selector:
  "(lower m = ''get'' \<or> lower m = ''post'' \<longrightarrow>
      (\<exists>r. fst (Request_init u m d s kwargs w) = Inr r \<and>
           method_fn r = (if lower m = ''get'' then GET else POST)))
   \<and> (lower m \<noteq> ''get'' \<and> lower m \<noteq> ''post'' \<longrightarrow>
      fst (Request_init u m d s kwargs w) = Inl (KeyError (lower m)))"
proof -
  have other: "method_dict (lower m) = None"
    if "lower m \<noteq> ''get''" and "lower m \<noteq> ''post''"
    using that by (simp add: method_dict_None)
  show ?thesis
    by (auto simp add: Request_init_def Let_def method_dict_get method_dict_post other
        split: prod.splits)
qed

theorem Request_init_method_selector_witness:
  "(\<exists>r. fst (Request_init None ''GeT'' None None Map.empty (fresh_world [])) = Inr r \<and>
        method_fn r = GET)
   \<and> (\<exists>r. fst (Request_init None ''POST'' None None Map.empty (fresh_world [])) = Inr r \<and>
        method_fn r = POST)
   \<and> fst (Request_init None ''put'' None None Map.empty (fresh_world [])) =
        Inl (KeyError ''put'')"
  using Request_init_method_selector [of "''GeT''" None None None Map.empty "fresh_world []"]
    Request_init_method_selector [of "''POST''" None None None Map.empty "fresh_world []"]
    Request_init_method_selector [of "''put''" None None None Map.empty "fresh_world []"]
  by (simp add: lower_def lower_char_def)

section \<open>Classification of responses\<close>

text \<open>
  C4. A request with a url whose transport call returns a body that decodes to the
  mapping \<open>R\<close>: when the status of \<open>R\<close> is \<open>error\<close>, the error message
  \<open>no "session" in JSON.\<close> raises \<open>NoSessionError\<close>, a message that starts with
  \<open>no session with key\<close> raises \<open>InvalidSessionError\<close>, and every other message
  raises \<open>InvalidRequest\<close> with that message; when the status is not \<open>error\<close>
  (or is absent) the mapping \<open>R\<close> itself is returned.
\<close>

theorem Request_make_request_classifies:
  assumes "url r = Some u" and "pending w = Decoded (Mapping R) # rest"
  shows
    "(R ''status'' = Some (JStr ''error'') \<and> R ''errormessage'' = Some (JStr no_session_text)
        \<longrightarrow> fst (Request_make_request r w) = Inl (NoSessionError no_session_text))
     \<and> (R ''status'' = Some (JStr ''error'') \<and> R ''errormessage'' = Some (JStr msg) \<and>
        prefix ''no session with key'' msg
        \<longrightarrow> fst (Request_make_request r w) = Inl (InvalidSessionError msg))
     \<and> (R ''status'' = Some (JStr ''error'') \<and> R ''errormessage'' = Some (JStr msg) \<and>
        msg \<noteq> no_session_text \<and> \<not> prefix ''no session with key'' msg
        \<longrightarrow> fst (Request_make_request r w) = Inl (InvalidRequest msg))
     \<and> (R ''status'' \<noteq> Some (JStr ''error'')
        \<longrightarrow> fst (Request_make_request r w) = Inr R)"
proof -
  have not_both: "\<not> prefix ''no session with key'' no_session_text"
    by simp
  have "fst (Request_make_request r w) = check_response (Mapping R)"
    using assms by (simp add: Request_make_request_decoded)
  then show ?thesis
    using not_both by (auto simp add: check_response_def)
qed

theorem Request_make_request_classifies_witness:
  "fst (Request_make_request example_request
          (example_world Map.empty Map.empty [error_reply no_session_text])) =
     Inl (NoSessionError no_session_text)
   \<and> fst (Request_make_request example_request
          (example_world Map.empty Map.empty [error_reply ''no session with key abc''])) =
     Inl (InvalidSessionError ''no session with key abc'')
   \<and> fst (Request_make_request example_request
          (example_world Map.empty Map.empty [error_reply ''bad request''])) =
     Inl (InvalidRequest ''bad request'')
   \<and> fst (Request_make_request example_request
          (example_world Map.empty Map.empty
             [Decoded (Mapping [''status'' \<mapsto> JStr ''success''])])) =
     Inr [''status'' \<mapsto> JStr ''success'']"
proof -
  let ?u = "''http://nova.astrometry.net/api/jobs''"
  have u: "url example_request = Some ?u"
    by (simp add: example_request_def)
  have p: "pending (example_world Map.empty Map.empty [Decoded (Mapping R)]) =
             Decoded (Mapping R) # []" for R
    by (simp add: example_world_def)
  show ?thesis
    using Request_make_request_classifies [OF u p, of _ no_session_text]
      Request_make_request_classifies [OF u p, of _ "''no session with key abc''"]
      Request_make_request_classifies [OF u p, of _ "''bad request''"]
      Request_make_request_classifies [OF u p, of "[''status'' \<mapsto> JStr ''success'']"]
    by (simp add: error_reply_def)
qed

section \<open>The merged payload\<close>

text \<open>
  C5. A request built from the caller's dictionaries \<open>da\<close> (data) and \<open>sa\<close>
  (settings), both existing objects, sends one call whose serialised object is
  \<open>data ++ settings\<close>: a function of the two mappings alone, in which a key present
  in both carries the value of the settings mapping.
\<close>

theorem merged_payload_settings_win:
  assumes "Request_init (Some u) m (Some da) (Some sa) kwargs w0 = (Inr r, w)"
    and "da < next_addr w0" and "sa < next_addr w0"
    and "heap w0 da k = Some x" and "heap w0 sa k = Some y"
  shows "\<exists>c. calls (snd (snd (Request_make r w))) = calls w0 @ [c] \<and>
             request_json c = heap w0 da ++ heap w0 sa \<and> request_json c k = Some y"
proof -
  from Request_init_ok [OF assms(1)] assms(2,3)
  have r: "url r = Some u" "heap w (data r) = heap w0 da" "heap w (settings r) = heap w0 sa"
    "calls w = calls w0"
    by auto
  show ?thesis
    using r assms(5)
    by (auto simp add: Request_make_def Request_make_request_def Let_def
        split: list.splits http_result.splits)
qed

theorem merged_payload_settings_win_witness:
  "case Request_init (Some ''http://nova.astrometry.net/api/upload'') ''post'' (Some 0) (Some 1)
          Map.empty (example_world [''a'' \<mapsto> JInt 1] [''a'' \<mapsto> JInt 2] []) of
     (Inl e, w) \<Rightarrow> False
   | (Inr r, w) \<Rightarrow>
       (\<exists>c. calls (snd (snd (Request_make r w))) = [c] \<and>
            request_json c ''a'' = Some (JInt 2))"
proof -
  let ?w0 = "example_world [''a'' \<mapsto> JInt 1] [''a'' \<mapsto> JInt 2] []"
  obtain r w where init:
    "Request_init (Some ''http://nova.astrometry.net/api/upload'') ''post'' (Some 0) (Some 1)
       Map.empty ?w0 = (Inr r, w)"
    by (simp add: Request_init_def Let_def alloc_def copy_def lower_post method_dict_post)
  have a: "0 < next_addr ?w0" and b: "1 < next_addr ?w0"
    and x: "heap ?w0 0 ''a'' = Some (JInt 1)" and y: "heap ?w0 1 ''a'' = Some (JInt 2)"
    by (simp_all add: example_world_def)
  from merged_payload_settings_win [OF init a b x y]
  have "\<exists>c. calls (snd (snd (Request_make r w))) = [c] \<and>
            request_json c ''a'' = Some (JInt 2)"
    by (auto simp add: example_world_def)
  then show ?thesis
    unfolding init by simp
qed

section \<open>Login\<close>

text \<open>
  C7. The claim: whenever the decoded login response has a status other than
  \<open>success\<close>, \<open>login\<close> raises \<open>LoginFailedException\<close> and leaves the Session
  unchanged. For the status \<open>error\<close> the send inside \<open>login\<close> classifies the
  response first and raises \<open>InvalidRequest\<close> (or one of the session errors), so
  \<open>LoginFailedException\<close> is not what the caller sees; the Session is unchanged.
\<close>

theorem login_error_status_raises_InvalidRequest:
  "login False example_session (fresh_world [error_reply ''bad apikey'']) =
     (Inl (InvalidRequest ''bad apikey''), example_session,
      \<lparr>heap = (\<lambda>a. Map.empty)(0 := apikey_data example_session, 1 := apikey_data example_session, 2 := Map.empty),
       next_addr = 3, pending = [], calls = [login_call example_session]\<rparr>)"
  by (simp add: login_sends example_session_def fresh_world_def error_reply_def check_response_def Let_def numeral_3_eq_3 numeral_2_eq_2)

text \<open>
  C6, as amended. On a Session that is not logged in and whose first login call
  receives a mapping with status \<open>success\<close> and a \<open>session\<close> field, two calls of
  \<open>login()\<close> issue exactly one transport call; two calls of \<open>login(force=True)\<close>
  issue exactly two on every Session; and on a logged-in Session \<open>login()\<close> returns
  at once, with no call and no change of state.
\<close>

theorem login_twice_calls:
  "(\<not> logged_in s \<and> pending w = Decoded (Mapping L) # rest \<and>
      L ''status'' = Some (JStr ''success'') \<and> L ''session'' = Some k
      \<longrightarrow> calls (snd (snd (login_twice False s w))) = calls w @ [login_call s])
   \<and> calls (snd (snd (login_twice True s w))) = calls w @ [login_call s, login_call s]
   \<and> (logged_in s \<longrightarrow> login False s w = (Inr (), s, w))"
proof (intro conjI impI)
  assume h: "\<not> logged_in s \<and> pending w = Decoded (Mapping L) # rest \<and>
      L ''status'' = Some (JStr ''success'') \<and> L ''session'' = Some k"
  then have ne: "L ''status'' \<noteq> Some (JStr ''error'')" by simp
  have "False \<or> \<not> logged_in s" using h by simp
  from login_sends [OF this, of w] h
  show "calls (snd (snd (login_twice False s w))) = calls w @ [login_call s]"
    by (simp add: login_twice_def Let_def check_response_def login_noop)
next
  obtain res s1 w1 where 1: "login True s w = (res, s1, w1)"
    by (cases "login True s w") auto
  obtain res2 s2 w2 where 2: "login True s1 w1 = (res2, s2, w2)"
    by (cases "login True s1 w1") auto
  from login_effect [OF 1] login_effect [OF 2]
  show "calls (snd (snd (login_twice True s w))) = calls w @ [login_call s, login_call s]"
    by (simp add: login_twice_def 1 2)
next
  assume "logged_in s"
  then show "login False s w = (Inr (), s, w)" by (rule login_noop)
qed

theorem login_twice_calls_witness:
  "calls (snd (snd (login_twice False example_session (fresh_world [success_reply ''XYZ''])))) =
     [login_call example_session]
   \<and> calls (snd (snd (login_twice True example_session (fresh_world [])))) =
     [login_call example_session, login_call example_session]
   \<and> login False (example_session\<lparr>logged_in := True\<rparr>) (fresh_world []) =
     (Inr (), example_session\<lparr>logged_in := True\<rparr>, fresh_world [])"
  using login_twice_calls [of example_session "fresh_world [success_reply ''XYZ'']"
      "[''status'' \<mapsto> JStr ''success'', ''session'' \<mapsto> JStr ''XYZ'']" "[]" "JStr ''XYZ''"]
    login_twice_calls [of example_session "fresh_world []"]
    login_twice_calls [of "example_session\<lparr>logged_in := True\<rparr>" "fresh_world []"]
  by (simp add: example_session_def fresh_world_def success_reply_def)

text \<open>
  The claim as stated speaks of every Session. On a fresh Session whose login is
  answered with the status \<open>failure\<close>, the first \<open>login()\<close> raises and leaves
  \<open>logged_in\<close> false, so the second \<open>login()\<close> sends again: two calls, not one.
\<close>

theorem login_twice_after_failure:
  "calls (snd (snd (login_twice False example_session
       (fresh_world [Decoded (Mapping [''status'' \<mapsto> JStr ''failure'']),
                     Decoded (Mapping [''status'' \<mapsto> JStr ''failure''])])))) =
     [login_call example_session, login_call example_session]"
  by (simp add: login_twice_def login_sends example_session_def fresh_world_def check_response_def Let_def)

section \<open>Authorized sends\<close>

text \<open>
  C2. An authorized send on a Session whose (non-forced) login leaves a key \<open>k\<close>:
  when the first attempt's response is classified as \<open>InvalidSessionError\<close>, the
  forced login receives a success response carrying the key \<open>k'\<close>, and the second
  attempt's response has status \<open>success\<close>, the send returns that second response.
  After the initial login the transport sees exactly three calls: the request with
  \<open>session = k\<close>, one login call, and the request with \<open>session = k'\<close>. So there
  is one forced re-login and there are two calls of the request itself; the request's
  own dictionary holds the new key afterwards.
\<close>

theorem AuthorizedRequest_retry_succeeds:
  assumes "login False s w = (Inr u0, s1, w1)" and "key s1 = Some k"
    and "url r = Some u" and "request_ok r w"
    and "pending w1 = Decoded b1 # Decoded (Mapping L) # Decoded (Mapping R2) # rest"
    and "check_response b1 = Inl (InvalidSessionError msg)"
    and "L ''status'' = Some (JStr ''success'')" and "L ''session'' = Some k'"
    and "R2 ''status'' = Some (JStr ''success'')"
  shows "\<exists>W. AuthorizedRequest_make_request r s w =
           (Inr R2, r\<lparr>response := Some (Mapping R2)\<rparr>,
            s1\<lparr>key := Some k', logged_in := True\<rparr>, W) \<and>
         calls W = calls w1 @
           [request_call r u ((heap w (data r))(''session'' \<mapsto> k)) (heap w (settings r)),
            login_call s,
            request_call r u ((heap w (data r))(''session'' \<mapsto> k')) (heap w (settings r))] \<and>
         pending W = rest \<and>
         heap W (data r) = (heap w (data r))(''session'' \<mapsto> k')"
proof -
  have "check_response (Mapping R2) = Inr R2"
    using assms(9) by (rule check_response_success)
  with AuthorizedRequest_retry [OF assms(1-8)]
  show ?thesis by auto
qed

theorem AuthorizedRequest_retry_succeeds_witness:
  "\<exists>W. AuthorizedRequest_make_request example_request
          (example_session\<lparr>key := Some (JStr ''abc''), logged_in := True\<rparr>)
          (example_world [''jobid'' \<mapsto> JInt 7] Map.empty
             [error_reply ''no session with key abc'', success_reply ''xyz'',
              Decoded (Mapping [''status'' \<mapsto> JStr ''success'', ''jobs'' \<mapsto> JList []])]) =
        (Inr [''status'' \<mapsto> JStr ''success'', ''jobs'' \<mapsto> JList []],
         example_request
           \<lparr>response := Some (Mapping [''status'' \<mapsto> JStr ''success'', ''jobs'' \<mapsto> JList []])\<rparr>,
         example_session\<lparr>key := Some (JStr ''xyz''), logged_in := True\<rparr>, W) \<and>
      map call_url (calls W) =
        [''http://nova.astrometry.net/api/jobs'', ''http://nova.astrometry.net/api/login'',
         ''http://nova.astrometry.net/api/jobs''] \<and>
      map (\<lambda>c. request_json c ''session'') (calls W) =
        [Some (JStr ''abc''), None, Some (JStr ''xyz'')] \<and>
      pending W = []"
proof -
  let ?s = "example_session\<lparr>key := Some (JStr ''abc''), logged_in := True\<rparr>"
  let ?R2 = "[''status'' \<mapsto> JStr ''success'', ''jobs'' \<mapsto> JList []]"
  let ?L = "[''status'' \<mapsto> JStr ''success'', ''session'' \<mapsto> JStr ''xyz'']"
  let ?b1 = "Mapping [''status'' \<mapsto> JStr ''error'',
                      ''errormessage'' \<mapsto> JStr ''no session with key abc'']"
  let ?w = "example_world [''jobid'' \<mapsto> JInt 7] Map.empty
             [error_reply ''no session with key abc'', success_reply ''xyz'',
              Decoded (Mapping ?R2)]"
  have l: "login False ?s ?w = (Inr (), ?s, ?w)"
    by (simp add: login_noop)
  have k: "key ?s = Some (JStr ''abc'')"
    by simp
  have u: "url example_request = Some ''http://nova.astrometry.net/api/jobs''"
    by (simp add: example_request_def)
  have ok: "request_ok example_request ?w"
    by (simp add: request_ok_def example_request_def example_world_def)
  have p: "pending ?w = Decoded ?b1 # Decoded (Mapping ?L) # Decoded (Mapping ?R2) # []"
    by (simp add: example_world_def error_reply_def success_reply_def)
  have c: "check_response ?b1 = Inl (InvalidSessionError ''no session with key abc'')"
    by (simp add: check_response_def)
  have L: "?L ''status'' = Some (JStr ''success'')" "?L ''session'' = Some (JStr ''xyz'')"
    by simp_all
  have R: "?R2 ''status'' = Some (JStr ''success'')"
    by simp
  from AuthorizedRequest_retry_succeeds [OF l k u ok p c L R]
  obtain W where W: "AuthorizedRequest_make_request example_request ?s ?w =
        (Inr ?R2, example_request\<lparr>response := Some (Mapping ?R2)\<rparr>,
         ?s\<lparr>key := Some (JStr ''xyz''), logged_in := True\<rparr>, W) \<and>
      calls W = calls ?w @
           [request_call example_request ''http://nova.astrometry.net/api/jobs''
              ((heap ?w (data example_request))(''session'' \<mapsto> JStr ''abc''))
              (heap ?w (settings example_request)),
            login_call ?s,
            request_call example_request ''http://nova.astrometry.net/api/jobs''
              ((heap ?w (data example_request))(''session'' \<mapsto> JStr ''xyz''))
              (heap ?w (settings example_request))] \<and>
      pending W = [] \<and>
      heap W (data example_request) =
        (heap ?w (data example_request))(''session'' \<mapsto> JStr ''xyz'')" ..
  note run = W [THEN conjunct1]
  note cs = W [THEN conjunct2, THEN conjunct1]
  note pe = W [THEN conjunct2, THEN conjunct2, THEN conjunct1]
  have c1: "map call_url (calls W) =
        [''http://nova.astrometry.net/api/jobs'', ''http://nova.astrometry.net/api/login'',
         ''http://nova.astrometry.net/api/jobs'']"
    unfolding cs
    by (simp add: request_call_def login_call_def example_request_def example_world_def
        example_session_def)
  have c2: "map (\<lambda>c. request_json c ''session'') (calls W) =
        [Some (JStr ''abc''), None, Some (JStr ''xyz'')]"
    unfolding cs
    by (simp add: request_call_def login_call_def example_request_def example_world_def
        example_session_def apikey_data_def)
  have s: "?s\<lparr>key := Some (JStr ''xyz''), logged_in := True\<rparr> =
           example_session\<lparr>key := Some (JStr ''xyz''), logged_in := True\<rparr>"
    by simp
  from run c1 c2 pe have "AuthorizedRequest_make_request example_request ?s ?w =
        (Inr ?R2, example_request\<lparr>response := Some (Mapping ?R2)\<rparr>,
         example_session\<lparr>key := Some (JStr ''xyz''), logged_in := True\<rparr>, W) \<and>
      map call_url (calls W) =
        [''http://nova.astrometry.net/api/jobs'', ''http://nova.astrometry.net/api/login'',
         ''http://nova.astrometry.net/api/jobs''] \<and>
      map (\<lambda>c. request_json c ''session'') (calls W) =
        [Some (JStr ''abc''), None, Some (JStr ''xyz'')] \<and>
      pending W = []"
    unfolding s by (intro conjI)
  then show ?thesis ..
qed

text \<open>
  C3. An authorized send never issues its own request more than twice. The calls it
  adds to the log are: at most one call of the initial login, followed by a prefix of
  the three calls request, login, request. When both attempts receive an error
  response whose message starts with \<open>no session with key\<close> (and the forced login in
  between succeeds), the send raises \<open>InvalidSessionError\<close> with the second message,
  exactly these three calls were added after the initial login, and every later
  transport outcome is left unconsumed: there is no third attempt.
\<close>

theorem AuthorizedRequest_at_most_two_sends:
  assumes run: "AuthorizedRequest_make_request r s w = (res, r', s', w')"
    and ok: "request_ok r w"
  shows "(\<exists>pre post u k k'.
            calls w' = calls w @ pre @ post \<and> (pre = [] \<or> pre = [login_call s]) \<and>
            prefix post
              [request_call r u ((heap w (data r))(''session'' \<mapsto> k)) (heap w (settings r)),
               login_call s,
               request_call r u ((heap w (data r))(''session'' \<mapsto> k')) (heap w (settings r))]) \<and>
         (login False s w = (Inr u0, s1, w1) \<and> key s1 = Some k0 \<and> url r = Some u1 \<and>
          pending w1 = Decoded (Mapping R1) # Decoded (Mapping L) # Decoded (Mapping R2) # rest \<and>
          R1 ''status'' = Some (JStr ''error'') \<and> R1 ''errormessage'' = Some (JStr msg1) \<and>
          prefix ''no session with key'' msg1 \<and>
          L ''status'' = Some (JStr ''success'') \<and> L ''session'' = Some k1 \<and>
          R2 ''status'' = Some (JStr ''error'') \<and> R2 ''errormessage'' = Some (JStr msg2) \<and>
          prefix ''no session with key'' msg2
          \<longrightarrow> res = Inl (InvalidSessionError msg2) \<and>
              calls w' = calls w1 @
                [request_call r u1 ((heap w (data r))(''session'' \<mapsto> k0)) (heap w (settings r)),
                 login_call s,
                 request_call r u1 ((heap w (data r))(''session'' \<mapsto> k1)) (heap w (settings r))] \<and>
              pending w' = rest)"
proof (rule conjI)
  show "\<exists>pre post u k k'.
            calls w' = calls w @ pre @ post \<and> (pre = [] \<or> pre = [login_call s]) \<and>
            prefix post
              [request_call r u ((heap w (data r))(''session'' \<mapsto> k)) (heap w (settings r)),
               login_call s,
               request_call r u ((heap w (data r))(''session'' \<mapsto> k')) (heap w (settings r))]"
    by (rule AuthorizedRequest_calls [OF run ok])
next
  show "login False s w = (Inr u0, s1, w1) \<and> key s1 = Some k0 \<and> url r = Some u1 \<and>
          pending w1 = Decoded (Mapping R1) # Decoded (Mapping L) # Decoded (Mapping R2) # rest \<and>
          R1 ''status'' = Some (JStr ''error'') \<and> R1 ''errormessage'' = Some (JStr msg1) \<and>
          prefix ''no session with key'' msg1 \<and>
          L ''status'' = Some (JStr ''success'') \<and> L ''session'' = Some k1 \<and>
          R2 ''status'' = Some (JStr ''error'') \<and> R2 ''errormessage'' = Some (JStr msg2) \<and>
          prefix ''no session with key'' msg2
          \<longrightarrow> res = Inl (InvalidSessionError msg2) \<and>
              calls w' = calls w1 @
                [request_call r u1 ((heap w (data r))(''session'' \<mapsto> k0)) (heap w (settings r)),
                 login_call s,
                 request_call r u1 ((heap w (data r))(''session'' \<mapsto> k1)) (heap w (settings r))] \<and>
              pending w' = rest"
  proof (intro impI, elim conjE)
    assume l: "login False s w = (Inr u0, s1, w1)" and k: "key s1 = Some k0"
      and u: "url r = Some u1"
      and p: "pending w1 = Decoded (Mapping R1) # Decoded (Mapping L) # Decoded (Mapping R2) # rest"
      and R1: "R1 ''status'' = Some (JStr ''error'')" "R1 ''errormessage'' = Some (JStr msg1)"
        "prefix ''no session with key'' msg1"
      and L: "L ''status'' = Some (JStr ''success'')" "L ''session'' = Some k1"
      and R2: "R2 ''status'' = Some (JStr ''error'')" "R2 ''errormessage'' = Some (JStr msg2)"
        "prefix ''no session with key'' msg2"
    note c1 = check_response_invalid_session [OF R1]
    note c2 = check_response_invalid_session [OF R2]
    from AuthorizedRequest_retry [OF l k u ok p c1 L] run c2
    show "res = Inl (InvalidSessionError msg2) \<and>
              calls w' = calls w1 @
                [request_call r u1 ((heap w (data r))(''session'' \<mapsto> k0)) (heap w (settings r)),
                 login_call s,
                 request_call r u1 ((heap w (data r))(''session'' \<mapsto> k1)) (heap w (settings r))] \<and>
              pending w' = rest"
      by auto
  qed
qed

theorem AuthorizedRequest_at_most_two_sends_witness:
  "\<exists>r' s' W. AuthorizedRequest_make_request example_request
          (example_session\<lparr>key := Some (JStr ''abc''), logged_in := True\<rparr>)
          (example_world Map.empty Map.empty
             [error_reply ''no session with key abc'', success_reply ''xyz'',
              error_reply ''no session with key xyz'', success_reply ''unused'']) =
        (Inl (InvalidSessionError ''no session with key xyz''), r', s', W) \<and>
      map call_url (calls W) =
        [''http://nova.astrometry.net/api/jobs'', ''http://nova.astrometry.net/api/login'',
         ''http://nova.astrometry.net/api/jobs''] \<and>
      pending W = [success_reply ''unused'']"
proof -
  let ?s = "example_session\<lparr>key := Some (JStr ''abc''), logged_in := True\<rparr>"
  let ?R1 = "[''status'' \<mapsto> JStr ''error'', ''errormessage'' \<mapsto> JStr ''no session with key abc'']"
  let ?R2 = "[''status'' \<mapsto> JStr ''error'', ''errormessage'' \<mapsto> JStr ''no session with key xyz'']"
  let ?L = "[''status'' \<mapsto> JStr ''success'', ''session'' \<mapsto> JStr ''xyz'']"
  let ?w = "example_world Map.empty Map.empty
             [error_reply ''no session with key abc'', success_reply ''xyz'',
              error_reply ''no session with key xyz'', success_reply ''unused'']"
  obtain res r' s' W where
    run: "AuthorizedRequest_make_request example_request ?s ?w = (res, r', s', W)"
    by (rule prod_cases4)
  have ok: "request_ok example_request ?w"
    by (simp add: request_ok_def example_request_def example_world_def)
  have l: "login False ?s ?w = (Inr (), ?s, ?w)"
    by (simp add: login_noop)
  have p: "pending ?w = Decoded (Mapping ?R1) # Decoded (Mapping ?L) # Decoded (Mapping ?R2) #
             [success_reply ''unused'']"
    by (simp add: example_world_def error_reply_def success_reply_def)
  have hyp: "login False ?s ?w = (Inr (), ?s, ?w) \<and> key ?s = Some (JStr ''abc'') \<and>
          url example_request = Some ''http://nova.astrometry.net/api/jobs'' \<and>
          pending ?w = Decoded (Mapping ?R1) # Decoded (Mapping ?L) # Decoded (Mapping ?R2) #
             [success_reply ''unused''] \<and>
          ?R1 ''status'' = Some (JStr ''error'') \<and>
          ?R1 ''errormessage'' = Some (JStr ''no session with key abc'') \<and>
          prefix ''no session with key'' ''no session with key abc'' \<and>
          ?L ''status'' = Some (JStr ''success'') \<and> ?L ''session'' = Some (JStr ''xyz'') \<and>
          ?R2 ''status'' = Some (JStr ''error'') \<and>
          ?R2 ''errormessage'' = Some (JStr ''no session with key xyz'') \<and>
          prefix ''no session with key'' ''no session with key xyz''"
    using l p by (simp add: example_request_def)
  note concl = AuthorizedRequest_at_most_two_sends [OF run ok, THEN conjunct2, THEN mp, OF hyp]
  note res = concl [THEN conjunct1]
  note cs = concl [THEN conjunct2, THEN conjunct1]
  note pe = concl [THEN conjunct2, THEN conjunct2]
  have c1: "map call_url (calls W) =
        [''http://nova.astrometry.net/api/jobs'', ''http://nova.astrometry.net/api/login'',
         ''http://nova.astrometry.net/api/jobs'']"
    unfolding cs
    by (simp add: request_call_def login_call_def example_request_def example_world_def
        example_session_def)
  from run c1 pe
  have "AuthorizedRequest_make_request example_request ?s ?w =
        (Inl (InvalidSessionError ''no session with key xyz''), r', s', W) \<and>
      map call_url (calls W) =
        [''http://nova.astrometry.net/api/jobs'', ''http://nova.astrometry.net/api/login'',
         ''http://nova.astrometry.net/api/jobs''] \<and>
      pending W = [success_reply ''unused'']"
    unfolding res by (intro conjI)
  then show ?thesis
    by - (rule exI)+
qed

end
